theory Spec2Isabelle
  imports Main
begin

section \<open>Python values, errors and containers\<close>

text \<open>
  The script \<^verbatim>\<open>scraping_stl.py\<close> works on Python strings, ints, \<^verbatim>\<open>None\<close>,
  \<^verbatim>\<open>np.nan\<close>, lists and dicts.  A dict is an association list in insertion order
  (the order in which pandas later lays out the columns).
\<close>

datatype pyval =
    PInt int
  | PStr string
  | PNone
  | PNaN
  | PList "pyval list"
  | PDict "(string \<times> pyval) list"

type_synonym pydict = "(string \<times> pyval) list"

text \<open>Every exception the modelled statements can raise.\<close>

datatype py_error =
    IndexError
  | KeyError string
  | AttributeError
  | HTTPError int
  | ConnectionError
  | ParseError

definition bindE :: "'e + 'a \<Rightarrow> ('a \<Rightarrow> 'e + 'b) \<Rightarrow> 'e + 'b" where
  "bindE m f = (case m of Inl e \<Rightarrow> Inl e | Inr x \<Rightarrow> f x)"

text \<open>\<^verbatim>\<open>xs[i]\<close> for a non-negative index: IndexError out of range.\<close>

definition getitem :: "'a list \<Rightarrow> nat \<Rightarrow> py_error + 'a" where
  "getitem xs i = (if i < length xs then Inr (xs ! i) else Inl IndexError)"

text \<open>\<^verbatim>\<open>d[k] = v\<close> on a dict: an existing key keeps its place, a new key goes last.\<close>

definition setitem :: "pydict \<Rightarrow> string \<Rightarrow> pyval \<Rightarrow> pydict" where
  "setitem d k v =
     (if k \<in> fst ` set d then map (\<lambda>(k', v'). if k' = k then (k', v) else (k', v')) d
      else d @ [(k, v)])"

section \<open>ElementTree documents\<close>

text \<open>
  An element has a tag, an attribute dict (\<^verbatim>\<open>attrib\<close>) and children.  The paths the
  script uses are \<^verbatim>\<open>.//t\<close> (every proper descendant with tag \<open>t\<close>, in document
  order) and \<^verbatim>\<open>.//t/c\<close> (the children tagged \<open>c\<close> of each such descendant).
\<close>

datatype xml = Element (tag: string) (attrib: "string \<rightharpoonup> string") (children: "xml list")

fun descendants :: "xml \<Rightarrow> xml list" where
  "descendants (Element t a cs) = concat (map (\<lambda>c. c # descendants c) cs)"

definition findall :: "xml \<Rightarrow> string \<Rightarrow> xml list" where
  "findall root t = filter (\<lambda>e. tag e = t) (descendants root)"

definition find :: "xml \<Rightarrow> string \<Rightarrow> xml option" where
  "find root t = (case findall root t of [] \<Rightarrow> None | e # _ \<Rightarrow> Some e)"

definition findall2 :: "xml \<Rightarrow> string \<Rightarrow> string \<Rightarrow> xml list" where
  "findall2 root t c =
     concat (map (\<lambda>p. filter (\<lambda>e. tag e = c) (children p)) (findall root t))"

text \<open>\<^verbatim>\<open>e.attrib[k]\<close> raises KeyError; \<^verbatim>\<open>e.attrib.get(k)\<close> gives None.\<close>

definition attrib_item :: "xml \<Rightarrow> string \<Rightarrow> py_error + string" where
  "attrib_item e k = (case attrib e k of None \<Rightarrow> Inl (KeyError k) | Some v \<Rightarrow> Inr v)"

definition attrib_get :: "xml \<Rightarrow> string \<Rightarrow> pyval" where
  "attrib_get e k = (case attrib e k of None \<Rightarrow> PNone | Some v \<Rightarrow> PStr v)"

definition attrib_get_default :: "xml \<Rightarrow> string \<Rightarrow> string \<Rightarrow> string" where
  "attrib_get_default e k d = (case attrib e k of None \<Rightarrow> d | Some v \<Rightarrow> v)"

text \<open>\<^verbatim>\<open>e.attrib[k] if k in e.attrib.keys() else None\<close>\<close>

definition attrib_or_None :: "xml \<Rightarrow> string \<Rightarrow> pyval" where
  "attrib_or_None e k = (if k \<in> dom (attrib e) then PStr (the (attrib e k)) else PNone)"

section \<open>Time splits and checkpoint rankings\<close>

definition useless :: "string list" where
  "useless = [''Animation 500m'', ''KM BV SPORT'']"

text \<open>
  \<^verbatim>\<open>checkpoint_dict = {cp.attrib["idpt"]: cp.attrib["n"] for cp in checkpoints}\<close>:
  a later checkpoint with the same id overwrites the name.
\<close>

fun checkpoint_dict_from :: "(string \<rightharpoonup> string) \<Rightarrow> xml list \<Rightarrow> py_error + (string \<rightharpoonup> string)" where
  "checkpoint_dict_from d [] = Inr d"
| "checkpoint_dict_from d (cp # cps) =
     bindE (attrib_item cp ''idpt'') (\<lambda>k.
     bindE (attrib_item cp ''n'') (\<lambda>v.
     checkpoint_dict_from (d(k \<mapsto> v)) cps))"

definition checkpoint_dict_of :: "xml list \<Rightarrow> py_error + (string \<rightharpoonup> string)" where
  "checkpoint_dict_of checkpoints = checkpoint_dict_from Map.empty checkpoints"

text \<open>\<^verbatim>\<open>checkpoints_ids = [cp.attrib["idpt"] for cp in checkpoints]\<close>\<close>

fun checkpoints_ids_of :: "xml list \<Rightarrow> py_error + string list" where
  "checkpoints_ids_of [] = Inr []"
| "checkpoints_ids_of (cp # cps) =
     bindE (attrib_item cp ''idpt'') (\<lambda>k.
     bindE (checkpoints_ids_of cps) (\<lambda>ks. Inr (k # ks)))"

text \<open>\<^verbatim>\<open>checkpoint_dict[id]\<close>\<close>

definition dict_item :: "(string \<rightharpoonup> string) \<Rightarrow> string \<Rightarrow> py_error + string" where
  "dict_item d k = (case d k of None \<Rightarrow> Inl (KeyError k) | Some v \<Rightarrow> Inr v)"

text \<open>
  One pass of the body of \<^verbatim>\<open>for id in checkpoints_ids\<close> (lines 124 to 137).  The
  state is the cursor \<open>i\<close> into \<open>splits\<close> and the two lists built so far.  Python's
  \<^verbatim>\<open>and\<close> evaluates \<^verbatim>\<open>splits[i]\<close> only when the checkpoint's own name is useless;
  otherwise \<^verbatim>\<open>splits[i]\<close> is first read by the comparison on line 131.
\<close>

definition align_step ::
  "(string \<rightharpoonup> string) \<Rightarrow> xml list \<Rightarrow> string \<Rightarrow> nat \<times> pyval list \<times> pyval list
     \<Rightarrow> py_error + (nat \<times> pyval list \<times> pyval list)" where
  "align_step checkpoint_dict splits ident st =
     (case st of (i, cptimes, cpranks) \<Rightarrow>
      bindE (dict_item checkpoint_dict ident) (\<lambda>n.
      if n \<in> set useless then
        bindE (getitem splits i) (\<lambda>s.
        bindE (attrib_item s ''idpt'') (\<lambda>sid.
        bindE (dict_item checkpoint_dict sid) (\<lambda>sn.
        if sn \<in> set useless then Inr (i + 1, cptimes, cpranks)
        else Inr (i, cptimes, cpranks))))
      else
        bindE (getitem splits i) (\<lambda>s.
        bindE (attrib_item s ''idpt'') (\<lambda>sid.
        if ident = sid then
          bindE (attrib_item s ''tps'') (\<lambda>t.
          Inr (i + 1, cptimes @ [PStr t],
               cpranks @ [PStr (attrib_get_default s ''clt'' ''-'')]))
        else Inr (i, cptimes @ [PNaN], cpranks @ [PNaN])))))"

text \<open>
  The ids at which a pass appends a slot: those whose name, looked up in
  \<open>checkpoint_dict\<close>, is not in \<open>useless\<close>.
\<close>

definition relevant_ids :: "(string \<rightharpoonup> string) \<Rightarrow> string list \<Rightarrow> string list" where
  "relevant_ids checkpoint_dict ids =
     filter (\<lambda>k. case checkpoint_dict k of None \<Rightarrow> False | Some n \<Rightarrow> n \<notin> set useless) ids"

fun align_loop ::
  "(string \<rightharpoonup> string) \<Rightarrow> xml list \<Rightarrow> string list \<Rightarrow> nat \<times> pyval list \<times> pyval list
     \<Rightarrow> py_error + (nat \<times> pyval list \<times> pyval list)" where
  "align_loop checkpoint_dict splits [] st = Inr st"
| "align_loop checkpoint_dict splits (ident # ids) st =
     bindE (align_step checkpoint_dict splits ident st)
       (align_loop checkpoint_dict splits ids)"

text \<open>
  Lines 115 to 137 on a parsed runner page: the checkpoint names, the ids, the
  splits and the walk.  The result is \<open>(cptimes, cpranks)\<close>.
\<close>

definition split_alignment :: "xml \<Rightarrow> py_error + (pyval list \<times> pyval list)" where
  "split_alignment root =
     (let checkpoints = findall2 root ''pts'' ''pt'' in
      bindE (checkpoint_dict_of checkpoints) (\<lambda>checkpoint_dict.
      bindE (checkpoints_ids_of checkpoints) (\<lambda>checkpoints_ids.
      let splits = findall2 root ''pass'' ''e'' in
      bindE (align_loop checkpoint_dict splits checkpoints_ids (0, [], [])) (\<lambda>st.
      case st of (i, cptimes, cpranks) \<Rightarrow> Inr (cptimes, cpranks)))))"

section \<open>The web and the two helper functions\<close>

text \<open>
  \<^verbatim>\<open>requests.get\<close> and \<^verbatim>\<open>ET.fromstring\<close> are the script's two doors to the outside:
  they are parameters of the model.  Either may raise.
\<close>

record response =
  status_code :: int
  resp_text :: string
  resp_content :: string

record world =
  requests_get :: "string \<Rightarrow> py_error + response"
  fromstring :: "string \<Rightarrow> py_error + xml"

text \<open>
  \<^verbatim>\<open>re.findall(r'doss="(\d+)"', content)\<close>: scan from the left; at each position try
  the literal \<^verbatim>\<open>doss="\<close>, then the longest run of digits (at least one), then a
  closing quote; a match yields its digits and the scan goes on after the match,
  a failure moves one character on.  The text is a list of 8-bit characters, so
  \<^verbatim>\<open>\d\<close> is the ASCII digits.
\<close>

definition is_digit :: "char \<Rightarrow> bool" where
  "is_digit c = (c \<in> set ''0123456789'')"

definition dquote :: char where
  "dquote = CHR 0x22"

definition doss_prefix :: string where
  "doss_prefix = ''doss='' @ [dquote]"

definition match_doss :: "string \<Rightarrow> (string \<times> string) option" where
  "match_doss s =
     (if take 6 s = doss_prefix then
        (let r = drop 6 s; g = takeWhile is_digit r; r' = dropWhile is_digit r in
         if g \<noteq> [] \<and> take 1 r' = [dquote] then Some (g, drop 1 r') else None)
      else None)"

lemma match_doss_shorter: "match_doss s = Some (g, rest) \<Longrightarrow> length rest < length s"
proof -
  assume m: "match_doss s = Some (g, rest)"
  let ?r = "drop 6 s"
  from m have p: "take 6 s = doss_prefix" and rest: "rest = drop 1 (dropWhile is_digit ?r)"
    by (auto simp add: match_doss_def Let_def split: if_splits)
  have "length rest \<le> length (dropWhile is_digit ?r)" using rest by simp
  also have "\<dots> \<le> length ?r" by (rule length_dropWhile_le)
  also have "\<dots> < length s"
  proof -
    have "length (take 6 s) = 6" using p by (simp add: doss_prefix_def)
    then show ?thesis by simp
  qed
  finally show ?thesis .
qed

function re_findall_doss :: "string \<Rightarrow> string list" where
  "re_findall_doss [] = []"
| "re_findall_doss (c # cs) =
     (case match_doss (c # cs) of
        Some (g, rest) \<Rightarrow> g # re_findall_doss rest
      | None \<Rightarrow> re_findall_doss cs)"
  by pat_completeness auto
termination
proof (relation "measure length")
  show "wf (measure length)" by simp
next
  fix c cs x2 g rest
  assume "match_doss (c # cs) = Some x2" "(g, rest) = x2"
  then have "length rest < length (c # cs)" using match_doss_shorter by metis
  then show "(rest, c # cs) \<in> measure length" by simp
next
  fix c cs
  show "(cs, c # cs) \<in> measure length" by simp
qed

text \<open>The result is the list of bib numbers and what was printed.\<close>

definition extract_bib_numbers :: "world \<Rightarrow> string \<Rightarrow> py_error + (string list \<times> string list)" where
  "extract_bib_numbers w url =
     bindE (requests_get w url) (\<lambda>response.
     if status_code response = 200 then Inr (re_findall_doss (resp_text response), [])
     else Inr ([], [''Failed to retrieve the page'']))"

text \<open>\<^verbatim>\<open>str(i)\<close> for the f-strings of \<^verbatim>\<open>extract_checkpoints\<close>.\<close>

function str_nat :: "nat \<Rightarrow> string" where
  "str_nat n =
     (if n < 10 then [char_of (48 + n)] else str_nat (n div 10) @ [char_of (48 + n mod 10)])"
  by pat_completeness auto
termination
  by (relation "measure id") auto

declare str_nat.simps [simp del]

text \<open>
  The loop of \<^verbatim>\<open>extract_checkpoints\<close> over \<^verbatim>\<open>root.findall(".//pts/pt")\<close>, with the
  counter \<open>i\<close> of kept checkpoints and the dict built so far.
\<close>

fun checkpoints_info_loop :: "xml list \<Rightarrow> nat \<Rightarrow> pydict \<Rightarrow> py_error + pydict" where
  "checkpoints_info_loop [] i checkpoints_info = Inr checkpoints_info"
| "checkpoints_info_loop (cp # cps) i checkpoints_info =
     bindE (attrib_item cp ''n'') (\<lambda>n.
     if n = ''Animation 500m'' \<or> n = ''KM BV SPORT'' then
       checkpoints_info_loop cps i checkpoints_info
     else
       bindE (attrib_item cp ''km'') (\<lambda>km.
       bindE (attrib_item cp ''a'') (\<lambda>a.
       bindE (attrib_item cp ''d'') (\<lambda>d.
       checkpoints_info_loop cps (i + 1)
         (setitem (setitem (setitem (setitem checkpoints_info
            (''Pt'' @ str_nat i @ '' name'') (PStr n))
            (''Pt'' @ str_nat i @ '' distance'') (PStr km))
            (''Pt'' @ str_nat i @ '' height'') (PStr a))
            (''Pt'' @ str_nat i @ '' total elevation'') (PStr d))))))"

definition extract_checkpoints :: "world \<Rightarrow> string \<Rightarrow> int \<Rightarrow> py_error + pydict" where
  "extract_checkpoints w url year =
     bindE (requests_get w url) (\<lambda>response.
     bindE (fromstring w (resp_text response)) (\<lambda>root.
     checkpoints_info_loop (findall2 root ''pts'' ''pt'') 0 [(''Year'', PInt year)]))"

section \<open>The main scraping loop\<close>

text \<open>One entry of \<^verbatim>\<open>achievements\<close>, and the list comprehension over \<^verbatim>\<open>past_races\<close>.\<close>

definition achievement :: "xml \<Rightarrow> py_error + pyval" where
  "achievement race =
     bindE (attrib_item race ''year'') (\<lambda>y.
     bindE (attrib_item race ''race'') (\<lambda>r.
     bindE (attrib_item race ''pos'') (\<lambda>p.
     bindE (attrib_item race ''tps'') (\<lambda>t.
     bindE (attrib_item race ''dist'') (\<lambda>d.
     Inr (PDict [(''Year'', PStr y), (''Race'', PStr r), (''Position'', PStr p),
                 (''Time'', PStr t), (''Distance'', PStr d),
                 (''Elevation Gain'', attrib_or_None race ''deniv'')]))))))"

fun achievements_of :: "xml list \<Rightarrow> py_error + pyval list" where
  "achievements_of [] = Inr []"
| "achievements_of (race # races) =
     bindE (achievement race) (\<lambda>a.
     bindE (achievements_of races) (\<lambda>as. Inr (a # as)))"

text \<open>
  The fourteen reads \<^verbatim>\<open>cptimes[0], cpranks[0], ..., cptimes[6], cpranks[6]\<close> of the
  dict literal on lines 171 to 184, in the order Python evaluates them.
\<close>

definition checkpoint_slots :: "pyval list \<Rightarrow> pyval list \<Rightarrow> py_error + pydict" where
  "checkpoint_slots cptimes cpranks =
     bindE (getitem cptimes 0) (\<lambda>t0. bindE (getitem cpranks 0) (\<lambda>r0.
     bindE (getitem cptimes 1) (\<lambda>t1. bindE (getitem cpranks 1) (\<lambda>r1.
     bindE (getitem cptimes 2) (\<lambda>t2. bindE (getitem cpranks 2) (\<lambda>r2.
     bindE (getitem cptimes 3) (\<lambda>t3. bindE (getitem cpranks 3) (\<lambda>r3.
     bindE (getitem cptimes 4) (\<lambda>t4. bindE (getitem cpranks 4) (\<lambda>r4.
     bindE (getitem cptimes 5) (\<lambda>t5. bindE (getitem cpranks 5) (\<lambda>r5.
     bindE (getitem cptimes 6) (\<lambda>t6. bindE (getitem cpranks 6) (\<lambda>r6.
     Inr [(''Pt0 time'', t0), (''Pt0 rank'', r0),
          (''Pt1 time'', t1), (''Pt1 rank'', r1),
          (''Pt2 time'', t2), (''Pt2 rank'', r2),
          (''Pt3 time'', t3), (''Pt3 rank'', r3),
          (''Pt4 time'', t4), (''Pt4 rank'', r4),
          (''Pt5 time'', t5), (''Pt5 rank'', r5),
          (''Pt6 time'', t6), (''Pt6 rank'', r6)]))))))))))))))"

text \<open>
  Lines 99 to 186 on a parsed runner page: the dict appended to \<^verbatim>\<open>data\<close>.
  \<^verbatim>\<open>root.find\<close> gives None when the element is absent, and \<^verbatim>\<open>.attrib\<close> on None
  raises AttributeError.
\<close>

definition runner_record :: "int \<Rightarrow> string \<Rightarrow> xml \<Rightarrow> py_error + pydict" where
  "runner_record year bib root =
     (case find root ''identite'' of None \<Rightarrow> Inl AttributeError | Some identite \<Rightarrow>
      bindE (attrib_item identite ''nom'') (\<lambda>name.
      let first_name = attrib_or_None identite ''prenom'' in
      bindE (attrib_item identite ''sx'') (\<lambda>sex.
      bindE (attrib_item identite ''cat'') (\<lambda>category.
      let club = attrib_get_default identite ''club'' [] in
      bindE (attrib_item identite ''nat'') (\<lambda>nationality.
      (case find root ''state'' of None \<Rightarrow> Inl AttributeError | Some state \<Rightarrow>
       bindE (attrib_item state ''clt'') (\<lambda>global_rank.
       let category_rank = attrib_or_None state ''cltcat'';
           gender_rank = attrib_or_None state ''cltsx'' in
       bindE (split_alignment root) (\<lambda>(cptimes, cpranks).
       bindE (achievements_of (findall2 root ''palm'' ''e'')) (\<lambda>achievements.
       let index = (case find root ''palm'' of None \<Rightarrow> PNone
                    | Some palm \<Rightarrow> attrib_get palm ''cote'') in
       bindE (checkpoint_slots cptimes cpranks) (\<lambda>slots.
       Inr ([(''Year'', PInt year),
             (''Bib Number'', PStr bib),
             (''Last Name'', PStr name),
             (''First Name'', first_name),
             (''Sex'', PStr sex),
             (''Category'', PStr category),
             (''Club'', PStr club),
             (''Nationality'', PStr nationality),
             (''Global Rank'', PStr global_rank),
             (''Category Rank'', category_rank),
             (''Gender Rank'', gender_rank),
             (''UTMB Index'', index)]
            @ slots
            @ [(''Past Achievements'', PList achievements)])))))))))))"

text \<open>\<^verbatim>\<open>response.raise_for_status()\<close>\<close>

definition raise_for_status :: "response \<Rightarrow> py_error + unit" where
  "raise_for_status response =
     (if 400 \<le> status_code response \<and> status_code response < 600
      then Inl (HTTPError (status_code response)) else Inr ())"

definition process_runner :: "world \<Rightarrow> int \<Rightarrow> string \<Rightarrow> string \<Rightarrow> py_error + pydict" where
  "process_runner w year base_runner_url bib =
     bindE (requests_get w (base_runner_url @ bib)) (\<lambda>response.
     bindE (raise_for_status response) (\<lambda>_.
     bindE (fromstring w (resp_text response)) (\<lambda>root.
     runner_record year bib root)))"

fun runner_loop :: "world \<Rightarrow> int \<Rightarrow> string \<Rightarrow> string list \<Rightarrow> pydict list \<Rightarrow> py_error + pydict list" where
  "runner_loop w year base_runner_url [] data = Inr data"
| "runner_loop w year base_runner_url (bib # bibs) data =
     bindE (process_runner w year base_runner_url bib) (\<lambda>row.
     runner_loop w year base_runner_url bibs (data @ [row]))"

text \<open>
  The body of \<^verbatim>\<open>for year in urls\<close>.  The state is \<^verbatim>\<open>data\<close>, \<^verbatim>\<open>checkpoint_data\<close> and
  the lines printed so far; the two CSV files are rewritten from the first two
  after each year and are not modelled.
\<close>

definition process_year ::
  "world \<Rightarrow> int \<Rightarrow> string \<Rightarrow> string \<Rightarrow> pydict list \<times> pydict list \<times> string list
     \<Rightarrow> py_error + (pydict list \<times> pydict list \<times> string list)" where
  "process_year w year base_ranking_url base_runner_url st =
     (case st of (data, checkpoint_data, out) \<Rightarrow>
      bindE (extract_bib_numbers w base_ranking_url) (\<lambda>(bib_numbers, printed).
      bindE (getitem bib_numbers 0) (\<lambda>bib0.
      bindE (extract_checkpoints w (base_runner_url @ bib0) year) (\<lambda>info.
      bindE (runner_loop w year base_runner_url bib_numbers data) (\<lambda>data'.
      Inr (data', checkpoint_data @ [info], out @ printed))))))"

fun year_loop ::
  "world \<Rightarrow> (int \<times> string \<times> string) list \<Rightarrow> pydict list \<times> pydict list \<times> string list
     \<Rightarrow> py_error + (pydict list \<times> pydict list \<times> string list)" where
  "year_loop w [] st = Inr st"
| "year_loop w ((year, base_ranking_url, base_runner_url) # rest) st =
     bindE (process_year w year base_ranking_url base_runner_url st) (year_loop w rest)"

section \<open>The 2017 edition loop\<close>

definition url2017 :: string where
  "url2017 = ''https://livetrail.net/histo/saintelyon_2017/classement.php?course=72km&cat=scratch''"

definition legacy_record :: "xml \<Rightarrow> pydict" where
  "legacy_record runner =
     [(''Year'', PInt 2017),
      (''Bib Number'', attrib_get runner ''doss''),
      (''Last Name'', attrib_get runner ''nom''),
      (''First Name'', attrib_get runner ''prenom''),
      (''Sex'', attrib_get runner ''sx''),
      (''Category'', attrib_get runner ''cat''),
      (''Club'', attrib_get runner ''club''),
      (''Nationality'', attrib_get runner ''pays''),
      (''Global Rank'', attrib_get runner ''class''),
      (''Category Rank'', attrib_get runner ''classcat''),
      (''UTMB Index'', attrib_get runner ''index''),
      (''Pt6 time'', attrib_get runner ''tps''),
      (''Pt6 rank'', attrib_get runner ''class'')]"

definition legacy_loop :: "world \<Rightarrow> pydict list \<Rightarrow> py_error + pydict list" where
  "legacy_loop w data =
     bindE (requests_get w url2017) (\<lambda>response.
     bindE (fromstring w (resp_content response)) (\<lambda>root.
     Inr (data @ map legacy_record (findall2 root ''classement'' ''c''))))"

text \<open>
  \<^verbatim>\<open>pd.DataFrame(data)\<close> on a list of dicts: the columns are the keys in order of
  first appearance, and a row has NaN in every column its dict has no key for.
\<close>

definition frame_columns :: "pydict list \<Rightarrow> string list" where
  "frame_columns data = rev (remdups (rev (concat (map (map fst) data))))"

definition frame_cell :: "pydict \<Rightarrow> string \<Rightarrow> pyval" where
  "frame_cell row col = (case map_of row col of None \<Rightarrow> PNaN | Some v \<Rightarrow> v)"

definition frame_rows :: "pydict list \<Rightarrow> pyval list list" where
  "frame_rows data = map (\<lambda>row. map (frame_cell row) (frame_columns data)) data"

section \<open>Sample documents\<close>

text \<open>Small runner pages and servers, on which the theorems below are instantiated.\<close>

definition pt :: "string \<Rightarrow> string \<Rightarrow> xml" where
  "pt i n = Element ''pt''
     (map_of [(''idpt'', i), (''n'', n), (''km'', ''0''), (''a'', ''0''), (''d'', ''0'')]) []"

definition split :: "string \<Rightarrow> string \<Rightarrow> xml" where
  "split i t = Element ''e'' (map_of [(''idpt'', i), (''tps'', t)]) []"

text \<open>
  A page with the mandatory attributes only: no \<^verbatim>\<open>prenom\<close>, no \<^verbatim>\<open>club\<close>, no
  \<^verbatim>\<open>cltcat\<close>, no \<^verbatim>\<open>cltsx\<close>, and one past race without \<^verbatim>\<open>deniv\<close>.
\<close>

definition runner_page :: "xml list \<Rightarrow> xml list \<Rightarrow> xml" where
  "runner_page pts splits = Element ''fiche'' Map.empty
     [Element ''identite''
        (map_of [(''nom'', ''DOE''), (''sx'', ''H''), (''cat'', ''SE''), (''nat'', ''FRA'')]) [],
      Element ''state'' (map_of [(''clt'', ''12'')]) [],
      Element ''pts'' Map.empty pts,
      Element ''pass'' Map.empty splits,
      Element ''palm'' Map.empty
        [Element ''e''
           (map_of [(''year'', ''2012''), (''race'', ''STL''), (''pos'', ''40''),
                    (''tps'', ''08:00:00''), (''dist'', ''70'')]) []]]"

definition page_gap :: xml where
  "page_gap = runner_page [pt ''1'' ''A'', pt ''2'' ''B'', pt ''3'' ''C'']
                [split ''1'' ''01:00:00'', split ''3'' ''03:00:00'']"

text \<open>The page of \<open>page_gap\<close> with an excluded checkpoint after the last one.\<close>

definition page_excluded_last :: xml where
  "page_excluded_last = runner_page
     [pt ''1'' ''A'', pt ''2'' ''B'', pt ''3'' ''C'', pt ''9'' ''KM BV SPORT'']
     [split ''1'' ''01:00:00'', split ''3'' ''03:00:00'']"

text \<open>The same with the excluded checkpoint first.\<close>

definition page_excluded_first :: xml where
  "page_excluded_first = runner_page
     [pt ''0'' ''Animation 500m'', pt ''1'' ''A'', pt ''2'' ''B'', pt ''3'' ''C'']
     [split ''1'' ''01:00:00'', split ''3'' ''03:00:00'']"

definition page_dnf :: xml where
  "page_dnf = runner_page [pt ''1'' ''A'', pt ''2'' ''B''] [split ''1'' ''01:00:00'']"

definition page_nosplit :: xml where
  "page_nosplit = runner_page [pt ''1'' ''A''] []"

definition page_three :: xml where
  "page_three = runner_page [pt ''1'' ''A'', pt ''2'' ''B'', pt ''3'' ''C'']
                  [split ''1'' ''01:00:00'', split ''2'' ''02:00:00'', split ''3'' ''03:00:00'']"

definition page_seven :: xml where
  "page_seven = runner_page
     [pt ''1'' ''A'', pt ''2'' ''B'', pt ''3'' ''C'', pt ''4'' ''D'', pt ''5'' ''E'',
      pt ''6'' ''F'', pt ''7'' ''G'']
     [split ''1'' ''01:00:00'', split ''2'' ''02:00:00'', split ''3'' ''03:00:00'',
      split ''4'' ''04:00:00'', split ''5'' ''05:00:00'', split ''6'' ''06:00:00'',
      split ''7'' ''07:00:00'']"

definition page_no_pts :: xml where
  "page_no_pts = Element ''fiche'' Map.empty []"

definition names_excl :: "string \<rightharpoonup> string" where
  "names_excl = map_of [(''0'', ''Animation 500m''), (''1'', ''A''), (''9'', ''KM BV SPORT'')]"

definition legacy_runner :: xml where
  "legacy_runner = Element ''c''
     (map_of [(''doss'', ''7''), (''nom'', ''DOE''), (''class'', ''3''), (''tps'', ''06:10:00'')]) []"

definition legacy_page :: xml where
  "legacy_page = Element ''d'' Map.empty [Element ''classement'' Map.empty [legacy_runner]]"

text \<open>A server that answers every request alike, and a parser that yields one document.\<close>

definition server :: "int \<Rightarrow> string \<Rightarrow> xml \<Rightarrow> world" where
  "server st body root =
     \<lparr>requests_get = (\<lambda>url. Inr \<lparr>status_code = st, resp_text = body, resp_content = body\<rparr>),
      fromstring = (\<lambda>s. Inr root)\<rparr>"

text \<open>
  A ranking page with three lines, the first with a second attribute, the third
  repeating the bib number of the first.
\<close>

definition ranking_text :: string where
  "ranking_text = ''<c '' @ doss_prefix @ ''12'' @ [dquote] @ '' index='' @ [dquote] @ ''650''
     @ [dquote] @ ''/><c '' @ doss_prefix @ ''7'' @ [dquote] @ ''/><c '' @ doss_prefix @ ''12''
     @ [dquote] @ ''/>''"

section \<open>Basic facts\<close>

lemma bindE_Inl [simp]: "bindE (Inl e) f = Inl e"
  by (simp add: bindE_def)

lemma bindE_Inr [simp]: "bindE (Inr x) f = f x"
  by (simp add: bindE_def)

lemma dict_item_Some [simp]: "d k = Some v \<Longrightarrow> dict_item d k = Inr v"
  by (simp add: dict_item_def)

lemma attrib_item_Some [simp]: "attrib e k = Some v \<Longrightarrow> attrib_item e k = Inr v"
  by (simp add: attrib_item_def)

lemma attrib_item_None [simp]: "attrib e k = None \<Longrightarrow> attrib_item e k = Inl (KeyError k)"
  by (simp add: attrib_item_def)

lemma getitem_in [simp]: "i < length xs \<Longrightarrow> getitem xs i = Inr (xs ! i)"
  by (simp add: getitem_def)

lemma getitem_out [simp]: "length xs \<le> i \<Longrightarrow> getitem xs i = Inl IndexError"
  by (simp add: getitem_def)

lemmas sample_defs =
  pt_def split_def runner_page_def page_gap_def page_excluded_last_def page_excluded_first_def
  page_dnf_def page_nosplit_def page_three_def
  page_seven_def page_no_pts_def names_excl_def legacy_runner_def legacy_page_def server_def

lemmas query_defs = findall2_def findall_def find_def

lemmas walk_defs =
  split_alignment_def checkpoint_dict_of_def align_step_def useless_def attrib_get_default_def

section \<open>Split alignment\<close>

text \<open>
  A page whose checkpoints are A, B, C, none of them excluded, and whose recorded
  splits are (A, t1), (C, t3): the walk puts t1 in slot 0, NaN in slot 1 and t3 in
  slot 2, not the positional zip [t1, t3, NaN].  The ranks follow the same slots.
\<close>

lemma alignment_by_id:
  assumes pts: "findall2 root ''pts'' ''pt'' = [pA, pB, pC]"
    and pA: "attrib pA ''idpt'' = Some A" "attrib pA ''n'' = Some nA" "nA \<notin> set useless"
    and pB: "attrib pB ''idpt'' = Some B" "attrib pB ''n'' = Some nB" "nB \<notin> set useless"
    and pC: "attrib pC ''idpt'' = Some C" "attrib pC ''n'' = Some nC" "nC \<notin> set useless"
    and splits: "findall2 root ''pass'' ''e'' = [s1, s3]"
    and s1: "attrib s1 ''idpt'' = Some A" "attrib s1 ''tps'' = Some t1"
    and s3: "attrib s3 ''idpt'' = Some C" "attrib s3 ''tps'' = Some t3"
    and BC: "B \<noteq> C"
  shows "split_alignment root =
           Inr ([PStr t1, PNaN, PStr t3],
                [PStr (attrib_get_default s1 ''clt'' ''-''), PNaN,
                 PStr (attrib_get_default s3 ''clt'' ''-'')])
         \<and> split_alignment root \<noteq>
           Inr ([PStr t1, PStr t3, PNaN],
                [PStr (attrib_get_default s1 ''clt'' ''-''),
                 PStr (attrib_get_default s3 ''clt'' ''-''), PNaN])"
proof -
  let ?cd = "[A \<mapsto> nA, B \<mapsto> nB, C \<mapsto> nC]"
  let ?r1 = "PStr (attrib_get_default s1 ''clt'' ''-'')"
  let ?r3 = "PStr (attrib_get_default s3 ''clt'' ''-'')"
  have cd: "checkpoint_dict_of [pA, pB, pC] = Inr ?cd"
    using pA pB pC by (simp add: checkpoint_dict_of_def)
  have ids: "checkpoints_ids_of [pA, pB, pC] = Inr [A, B, C]"
    using pA pB pC by simp
  have nA: "\<exists>n. ?cd A = Some n \<and> n \<notin> set useless"
    using pA pB pC by simp
  have nB: "\<exists>n. ?cd B = Some n \<and> n \<notin> set useless"
    using pA pB pC by simp
  have nC: "\<exists>n. ?cd C = Some n \<and> n \<notin> set useless"
    using pA pB pC by simp
  have stA: "align_step ?cd [s1, s3] A (0, [], []) = Inr (Suc 0, [PStr t1], [?r1])"
    using nA s1 by (auto simp add: align_step_def)
  have stB: "align_step ?cd [s1, s3] B (Suc 0, [PStr t1], [?r1]) =
      Inr (Suc 0, [PStr t1, PNaN], [?r1, PNaN])"
    using nB s3 BC by (auto simp add: align_step_def)
  have stC: "align_step ?cd [s1, s3] C (Suc 0, [PStr t1, PNaN], [?r1, PNaN]) =
      Inr (Suc (Suc 0), [PStr t1, PNaN, PStr t3], [?r1, PNaN, ?r3])"
    using nC s3 by (auto simp add: align_step_def)
  have "split_alignment root = Inr ([PStr t1, PNaN, PStr t3], [?r1, PNaN, ?r3])"
    unfolding split_alignment_def Let_def pts splits cd ids
    by (simp add: stA stB stC del: fun_upd_apply)
  then show ?thesis by simp
qed

lemma alignment_by_id_page_gap:
  "findall2 page_gap ''pts'' ''pt'' = [pt ''1'' ''A'', pt ''2'' ''B'', pt ''3'' ''C'']
   \<and> findall2 page_gap ''pass'' ''e'' = [split ''1'' ''01:00:00'', split ''3'' ''03:00:00'']
   \<and> split_alignment page_gap =
       Inr ([PStr ''01:00:00'', PNaN, PStr ''03:00:00''], [PStr ''-'', PNaN, PStr ''-''])"
  using alignment_by_id [of page_gap "pt ''1'' ''A''" "pt ''2'' ''B''" "pt ''3'' ''C''"
      "''1''" "''A''" "''2''" "''B''" "''3''" "''C''"
      "split ''1'' ''01:00:00''" "split ''3'' ''03:00:00''" "''01:00:00''" "''03:00:00''"]
  by (simp add: sample_defs query_defs useless_def attrib_get_default_def)

text \<open>
  C1.  A page whose checkpoints that are not excluded are A, B, C, with the
  recorded splits (A, t1), (C, t3), and with an excluded checkpoint after C.  The
  walk fills the three slots and then, at the excluded checkpoint, reads
  \<^verbatim>\<open>splits[2]\<close> on line 125 with the two splits used up: IndexError, where the
  spec asks for [t1, NaN, t3].  The same page with the excluded checkpoint first
  gives [t1, NaN, t3].
\<close>

theorem alignment_excluded_last:
  "findall2 page_excluded_last ''pts'' ''pt''
     = [pt ''1'' ''A'', pt ''2'' ''B'', pt ''3'' ''C'', pt ''9'' ''KM BV SPORT'']
   \<and> bindE (checkpoint_dict_of (findall2 page_excluded_last ''pts'' ''pt'')) (\<lambda>cd.
       bindE (checkpoints_ids_of (findall2 page_excluded_last ''pts'' ''pt'')) (\<lambda>ids.
       Inr (relevant_ids cd ids))) = (Inr [''1'', ''2'', ''3''] :: py_error + string list)
   \<and> findall2 page_excluded_last ''pass'' ''e''
     = [split ''1'' ''01:00:00'', split ''3'' ''03:00:00'']
   \<and> split_alignment page_excluded_last = Inl IndexError
   \<and> split_alignment page_excluded_first =
       Inr ([PStr ''01:00:00'', PNaN, PStr ''03:00:00''], [PStr ''-'', PNaN, PStr ''-''])"
proof -
  have pts: "findall2 page_excluded_last ''pts'' ''pt''
     = [pt ''1'' ''A'', pt ''2'' ''B'', pt ''3'' ''C'', pt ''9'' ''KM BV SPORT'']"
    by (simp add: sample_defs query_defs)
  have rel: "bindE (checkpoint_dict_of (findall2 page_excluded_last ''pts'' ''pt'')) (\<lambda>cd.
       bindE (checkpoints_ids_of (findall2 page_excluded_last ''pts'' ''pt'')) (\<lambda>ids.
       Inr (relevant_ids cd ids))) = (Inr [''1'', ''2'', ''3''] :: py_error + string list)"
    unfolding pts
    by (simp add: pt_def checkpoint_dict_of_def relevant_ids_def useless_def)
  have splits: "findall2 page_excluded_last ''pass'' ''e''
     = [split ''1'' ''01:00:00'', split ''3'' ''03:00:00'']"
    by (simp add: sample_defs query_defs)
  have last: "split_alignment page_excluded_last = Inl IndexError"
    by (simp add: sample_defs query_defs walk_defs)
  have first: "split_alignment page_excluded_first =
       Inr ([PStr ''01:00:00'', PNaN, PStr ''03:00:00''], [PStr ''-'', PNaN, PStr ''-''])"
    by (simp add: sample_defs query_defs walk_defs)
  from pts rel splits last first show ?thesis by (intro conjI)
qed

text \<open>
  C2.  The walk reads \<^verbatim>\<open>splits[i]\<close> for every checkpoint without comparing \<open>i\<close> with
  the length of \<open>splits\<close>.  A runner whose splits stop before the last checkpoint
  (A recorded, B not), and a runner with no split at all, both end in IndexError
  instead of a NaN slot.
\<close>

theorem alignment_reads_past_end:
  "split_alignment page_dnf = Inl IndexError \<and> split_alignment page_nosplit = Inl IndexError"
  by (simp add: sample_defs query_defs walk_defs)

text \<open>
  C6.  In one pass of the walk at a checkpoint whose name is excluded: when the
  split under the cursor belongs to an excluded checkpoint as well, the cursor
  moves on by one; when it belongs to a checkpoint that is not excluded, the
  cursor stays.  Neither case appends a slot.
\<close>

theorem exclusion_branch:
  assumes "checkpoint_dict ident = Some n" and "n \<in> set useless"
    and "i < length splits" and "attrib (splits ! i) ''idpt'' = Some sid"
    and "checkpoint_dict sid = Some sn"
  shows "align_step checkpoint_dict splits ident (i, cptimes, cpranks) =
           (if sn \<in> set useless then Inr (i + 1, cptimes, cpranks)
            else Inr (i, cptimes, cpranks))"
  using assms by (simp add: align_step_def)

theorem exclusion_branch_witness:
  "align_step names_excl [split ''9'' ''00:01:00''] ''0'' (0, [], []) = Inr (1, [], [])
   \<and> align_step names_excl [split ''1'' ''01:00:00''] ''0'' (0, [], []) = Inr (0, [], [])"
  using exclusion_branch [of names_excl "''0''" "''Animation 500m''" 0
          "[split ''9'' ''00:01:00'']" "''9''" "''KM BV SPORT''" "[]" "[]"]
        exclusion_branch [of names_excl "''0''" "''Animation 500m''" 0
          "[split ''1'' ''01:00:00'']" "''1''" "''A''" "[]" "[]"]
  by (simp add: sample_defs useless_def)

section \<open>The bib number extractor\<close>

lemma dquote_not_digit: "\<not> is_digit dquote"
  by (simp add: is_digit_def dquote_def)

lemma match_doss_other: "CHR ''d'' \<noteq> c \<Longrightarrow> match_doss (c # cs) = None"
  by (auto simp add: match_doss_def doss_prefix_def)

lemma match_doss_token:
  assumes "n \<noteq> []" and "\<forall>c \<in> set n. is_digit c"
  shows "match_doss (doss_prefix @ n @ dquote # rest) = Some (n, rest)"
proof -
  have t: "takeWhile is_digit (n @ dquote # rest) = n"
    using assms(2) by (simp add: takeWhile_append2 dquote_not_digit)
  have d: "dropWhile is_digit (n @ dquote # rest) = dquote # rest"
    using assms(2) by (simp add: dropWhile_append2 dquote_not_digit)
  have l: "length doss_prefix = 6" by (simp add: doss_prefix_def)
  show ?thesis
    using assms(1) by (simp add: match_doss_def l t d)
qed

lemma digit_not_d: "is_digit c \<Longrightarrow> CHR ''d'' \<noteq> c"
  by (auto simp add: is_digit_def)

text \<open>
  The pattern matches at the head of a text exactly when the text reads
  \<^verbatim>\<open>doss="\<close>, a non-empty run of digits, and a closing quote.
\<close>

lemma match_doss_iff:
  "match_doss t = Some (g, rest) \<longleftrightarrow>
     g \<noteq> [] \<and> (\<forall>c \<in> set g. is_digit c) \<and> t = doss_prefix @ g @ dquote # rest"
proof
  assume m: "match_doss t = Some (g, rest)"
  let ?r = "drop 6 t"
  from m have p: "take 6 t = doss_prefix"
    and g: "g = takeWhile is_digit ?r" "g \<noteq> []"
    and q: "take 1 (dropWhile is_digit ?r) = [dquote]"
    and rest: "rest = drop 1 (dropWhile is_digit ?r)"
    by (auto simp add: match_doss_def Let_def split: if_splits)
  have "dropWhile is_digit ?r = take 1 (dropWhile is_digit ?r) @ drop 1 (dropWhile is_digit ?r)"
    by simp
  then have d: "dropWhile is_digit ?r = dquote # rest"
    by (simp only: q rest) simp
  have "?r = takeWhile is_digit ?r @ dropWhile is_digit ?r" by simp
  then have r: "?r = g @ dquote # rest" by (simp only: g(1) d)
  have "t = take 6 t @ ?r" by simp
  then have "t = doss_prefix @ g @ dquote # rest" by (simp only: p r)
  moreover have "\<forall>c \<in> set g. is_digit c"
    unfolding g(1) by (auto dest: set_takeWhileD)
  ultimately show "g \<noteq> [] \<and> (\<forall>c \<in> set g. is_digit c) \<and> t = doss_prefix @ g @ dquote # rest"
    using g(2) by simp
next
  assume "g \<noteq> [] \<and> (\<forall>c \<in> set g. is_digit c) \<and> t = doss_prefix @ g @ dquote # rest"
  then show "match_doss t = Some (g, rest)"
    using match_doss_token [of g rest] by simp
qed

text \<open>No match starts inside a match: none of its characters after the first is a d.\<close>

lemma match_doss_drop_tail:
  assumes "CHR ''d'' \<notin> set u" and "k < length u"
  shows "match_doss (drop k u @ rest) = None"
proof -
  have "drop k u = u ! k # drop (Suc k) u"
    using assms(2) by (simp add: Cons_nth_drop_Suc)
  moreover have "CHR ''d'' \<noteq> u ! k"
    using assms by (metis nth_mem)
  ultimately show ?thesis by (simp add: match_doss_other)
qed

lemma no_match_inside:
  assumes "\<forall>c \<in> set g. is_digit c" and "0 < j" and "j < 7 + length g"
  shows "match_doss (drop j (doss_prefix @ g @ dquote # rest)) = None"
proof -
  let ?u = "''oss='' @ [dquote] @ g @ [dquote]"
  have t: "doss_prefix @ g @ dquote # rest = CHR ''d'' # ?u @ rest"
    by (simp add: doss_prefix_def)
  have nd: "CHR ''d'' \<notin> set ?u"
    using assms(1) digit_not_d by (auto simp add: dquote_def)
  obtain k where k: "j = Suc k" using assms(2) by (cases j) simp_all
  have kl: "k < length ?u" using assms(3) k by simp
  have "drop j (doss_prefix @ g @ dquote # rest) = drop k ?u @ rest"
    using kl by (simp only: t k drop_Suc_Cons drop_append) simp
  then show ?thesis using match_doss_drop_tail [OF nd kl] by simp
qed

lemma findall_step_None:
  "t \<noteq> [] \<Longrightarrow> match_doss t = None \<Longrightarrow> re_findall_doss t = re_findall_doss (tl t)"
  by (cases t) simp_all

lemma findall_step_Some:
  "match_doss t = Some (g, rest) \<Longrightarrow> re_findall_doss t = g # re_findall_doss rest"
  by (cases t) (simp_all add: match_doss_def doss_prefix_def)

text \<open>
  The scan from position \<open>p\<close> yields, for each later position in document order
  at which the pattern matches, the digits matched there.
\<close>

lemma findall_scan:
  "re_findall_doss (drop p s) =
     concat (map (\<lambda>q. case match_doss (drop q s) of None \<Rightarrow> [] | Some (g, rest) \<Rightarrow> [g])
                 [p..<length s])"
proof (induction "length s - p" arbitrary: p rule: less_induct)
  case less
  let ?f = "\<lambda>q. case match_doss (drop q s) of None \<Rightarrow> [] | Some (g, rest) \<Rightarrow> [g]"
  show ?case
  proof (cases "p < length s")
    case False
    then show ?thesis by simp
  next
    case True
    then have ne: "drop p s \<noteq> []" by simp
    have upt: "[p..<length s] = p # [Suc p..<length s]"
      using True by (simp add: upt_conv_Cons)
    show ?thesis
    proof (cases "match_doss (drop p s)")
      case None
      have "re_findall_doss (drop p s) = re_findall_doss (tl (drop p s))"
        using ne None by (rule findall_step_None)
      also have "tl (drop p s) = drop (Suc p) s"
        by (simp add: drop_Suc tl_drop)
      also have "re_findall_doss (drop (Suc p) s) = concat (map ?f [Suc p..<length s])"
        using less [of "Suc p"] True by simp
      finally show ?thesis using None by (simp add: upt)
    next
      case (Some m)
      obtain g rest where m: "m = (g, rest)" by (cases m)
      from Some m have ms: "match_doss (drop p s) = Some (g, rest)" by simp
      then have dg: "\<forall>c \<in> set g. is_digit c"
        and t: "drop p s = doss_prefix @ g @ dquote # rest"
        by (simp_all add: match_doss_iff)
      let ?k = "7 + length g"
      have lp: "length doss_prefix = 6" by (simp add: doss_prefix_def)
      have "length (drop p s) = ?k + length rest"
        by (simp only: t) (simp add: lp)
      then have pk: "p + ?k \<le> length s" by simp
      have rest: "rest = drop (p + ?k) s"
      proof -
        have "drop ?k (drop p s) = rest" by (simp only: t) (simp add: lp)
        then show ?thesis by (simp add: add.commute)
      qed
      have inside: "concat (map ?f [Suc p..<p + ?k]) = []"
      proof -
        have "\<forall>q \<in> set [Suc p..<p + ?k]. ?f q = []"
        proof
          fix q
          assume "q \<in> set [Suc p..<p + ?k]"
          then have q: "p < q" "q < p + ?k" by simp_all
          have "drop q s = drop (q - p) (drop p s)" using q by simp
          also have "\<dots> = drop (q - p) (doss_prefix @ g @ dquote # rest)" by (simp only: t)
          finally have "match_doss (drop q s) = None"
            using no_match_inside [OF dg, of "q - p" rest] q by simp
          then show "?f q = []" by simp
        qed
        then show ?thesis by simp
      qed
      obtain d where d: "length s = (p + ?k) + d"
        using pk le_Suc_ex by blast
      have "Suc p \<le> p + ?k" by simp
      then have "[Suc p..<(p + ?k) + d] = [Suc p..<p + ?k] @ [p + ?k..<(p + ?k) + d]"
        by (rule upt_add_eq_append)
      then have split: "[Suc p..<length s] = [Suc p..<p + ?k] @ [p + ?k..<length s]"
        by (simp only: d)
      have "re_findall_doss (drop p s) = g # re_findall_doss rest"
        using ms by (rule findall_step_Some)
      also have "re_findall_doss rest = concat (map ?f [p + ?k..<length s])"
        unfolding rest using less [of "p + ?k"] True by simp
      finally have "re_findall_doss (drop p s) = g # concat (map ?f [p + ?k..<length s])" .
      moreover have "concat (map ?f [p..<length s])
                       = ?f p @ concat (map ?f [Suc p..<p + ?k])
                           @ concat (map ?f [p + ?k..<length s])"
        by (simp only: upt split map_append concat_append list.map concat.simps)
      moreover have "?f p = [g]" using ms by simp
      ultimately show ?thesis using inside by simp
    qed
  qed
qed

text \<open>
  C5, as the spec has it, fails for a success status other than 200: a ranking
  page delivered with status 201 holds three bib numbers, and the function
  returns the empty list and prints the failure line.
\<close>

theorem status_201_returns_nothing:
  "re_findall_doss ranking_text = [''12'', ''7'', ''12'']
   \<and> extract_bib_numbers (server 201 ranking_text page_no_pts) ''u''
       = Inr ([], [''Failed to retrieve the page''])"
  by (simp add: ranking_text_def doss_prefix_def dquote_def match_doss_def is_digit_def
        extract_bib_numbers_def server_def)

text \<open>
  C5, as the code has it.  When the ranking page comes back with a status other
  than 200 (every non-success status, and every other 2xx status as well),
  \<^verbatim>\<open>extract_bib_numbers\<close> returns the empty list and prints one line; it raises
  nothing.  With status 200 it returns, for each position of the text in document
  order at which the pattern matches, the digits matched there, so a bib number
  that occurs twice is returned twice.  The pattern matches at a position exactly
  when the text there reads \<^verbatim>\<open>doss="\<close>, a non-empty run of digits and a quote.
\<close>

theorem extract_bib_numbers_by_status:
  assumes "requests_get w url = Inr response"
  shows "(status_code response \<noteq> 200 \<longrightarrow>
            extract_bib_numbers w url = Inr ([], [''Failed to retrieve the page'']))
       \<and> (status_code response = 200 \<longrightarrow>
            extract_bib_numbers w url =
              Inr (concat (map (\<lambda>p. case match_doss (drop p (resp_text response)) of
                                       None \<Rightarrow> [] | Some (g, rest) \<Rightarrow> [g])
                               [0..<length (resp_text response)]), []))
       \<and> (\<forall>t g rest. match_doss t = Some (g, rest) \<longleftrightarrow>
              g \<noteq> [] \<and> (\<forall>c \<in> set g. is_digit c) \<and> t = doss_prefix @ g @ dquote # rest)"
proof (intro conjI impI allI)
  assume "status_code response \<noteq> 200"
  then show "extract_bib_numbers w url = Inr ([], [''Failed to retrieve the page''])"
    using assms by (simp add: extract_bib_numbers_def)
next
  assume "status_code response = 200"
  then have "extract_bib_numbers w url = Inr (re_findall_doss (resp_text response), [])"
    using assms by (simp add: extract_bib_numbers_def)
  then show "extract_bib_numbers w url =
              Inr (concat (map (\<lambda>p. case match_doss (drop p (resp_text response)) of
                                       None \<Rightarrow> [] | Some (g, rest) \<Rightarrow> [g])
                               [0..<length (resp_text response)]), [])"
    using findall_scan [of 0 "resp_text response"] by simp
next
  fix t g rest
  show "match_doss t = Some (g, rest) \<longleftrightarrow>
          g \<noteq> [] \<and> (\<forall>c \<in> set g. is_digit c) \<and> t = doss_prefix @ g @ dquote # rest"
    by (rule match_doss_iff)
qed

theorem extract_bib_numbers_by_status_witness:
  "extract_bib_numbers (server 404 ranking_text page_no_pts) ''u''
     = Inr ([], [''Failed to retrieve the page''])
   \<and> extract_bib_numbers (server 200 ranking_text page_no_pts) ''u''
     = Inr ([''12'', ''7'', ''12''], [])"
proof -
  let ?r = "\<lambda>st. \<lparr>status_code = st, resp_text = ranking_text, resp_content = ranking_text\<rparr>"
  let ?f = "\<lambda>p. case match_doss (drop p ranking_text) of None \<Rightarrow> [] | Some (g, rest) \<Rightarrow> [g]"
  have g4: "requests_get (server 404 ranking_text page_no_pts) ''u'' = Inr (?r 404)"
    by (simp add: server_def)
  have g2: "requests_get (server 200 ranking_text page_no_pts) ''u'' = Inr (?r 200)"
    by (simp add: server_def)
  have a: "extract_bib_numbers (server 404 ranking_text page_no_pts) ''u''
             = Inr ([], [''Failed to retrieve the page''])"
    using extract_bib_numbers_by_status [OF g4, THEN conjunct1] by simp
  have "extract_bib_numbers (server 200 ranking_text page_no_pts) ''u''
          = Inr (concat (map ?f [0..<length ranking_text]), [])"
    using extract_bib_numbers_by_status [OF g2, THEN conjunct2, THEN conjunct1] by simp
  moreover have "concat (map ?f [0..<length ranking_text]) = re_findall_doss ranking_text"
    using findall_scan [of 0 ranking_text] by simp
  moreover have "re_findall_doss ranking_text = [''12'', ''7'', ''12'']"
    by (simp add: ranking_text_def doss_prefix_def dquote_def match_doss_def is_digit_def)
  ultimately have b: "extract_bib_numbers (server 200 ranking_text page_no_pts) ''u''
          = Inr ([''12'', ''7'', ''12''], [])" by simp
  from a b show ?thesis by simp
qed

section \<open>The checkpoint extractor and the year loop\<close>

text \<open>
  C7, as the code has it.  When \<^verbatim>\<open>root.findall(".//pts/pt")\<close> finds nothing, the loop
  of \<^verbatim>\<open>extract_checkpoints\<close> does not run and the function returns the dict holding
  the year alone; it raises nothing.
\<close>

theorem extract_checkpoints_without_pts:
  assumes "requests_get w url = Inr response"
    and "fromstring w (resp_text response) = Inr root"
    and "findall2 root ''pts'' ''pt'' = []"
  shows "extract_checkpoints w url year = Inr [(''Year'', PInt year)]"
  using assms by (simp add: extract_checkpoints_def)

theorem extract_checkpoints_without_pts_witness:
  "findall2 page_no_pts ''pts'' ''pt'' = []
   \<and> extract_checkpoints (server 200 [] page_no_pts) ''u'' 2013 = Inr [(''Year'', PInt 2013)]"
  using extract_checkpoints_without_pts [of "server 200 [] page_no_pts" "''u''"
          "\<lparr>status_code = 200, resp_text = [], resp_content = []\<rparr>" page_no_pts 2013]
  by (simp add: sample_defs query_defs)

text \<open>
  C7, as the spec has it, fails on a document with no \<^verbatim>\<open>pts\<close> element: the call
  returns a value, not an error.
\<close>

theorem extract_checkpoints_no_schema_error:
  "findall2 page_no_pts ''pts'' ''pt'' = []
   \<and> extract_checkpoints (server 200 [] page_no_pts) ''u'' 2022 = Inr [(''Year'', PInt 2022)]
   \<and> \<not> isl (extract_checkpoints (server 200 [] page_no_pts) ''u'' 2022)"
  by (simp add: sample_defs query_defs extract_checkpoints_def)

text \<open>
  C4.  A year whose ranking page yields no bib number (status 404, or status 200
  and no \<^verbatim>\<open>doss="..."\<close> in the text): \<^verbatim>\<open>bib_numbers[0]\<close> on line 90 raises IndexError,
  and the loop over the years stops there instead of going on to the next year.
\<close>

theorem empty_ranking_aborts:
  "extract_bib_numbers (server 404 [] page_seven) ''r''
     = Inr ([], [''Failed to retrieve the page''])
   \<and> process_year (server 404 [] page_seven) 2024 ''r'' ''u'' ([], [], []) = Inl IndexError
   \<and> year_loop (server 404 [] page_seven) [(2024, ''r'', ''u''), (2023, ''r'', ''u'')]
        ([], [], []) = Inl IndexError
   \<and> extract_bib_numbers (server 200 ''<a/>'' page_seven) ''r'' = Inr ([], [])
   \<and> process_year (server 200 ''<a/>'' page_seven) 2024 ''r'' ''u'' ([], [], [])
        = Inl IndexError"
  by (simp add: server_def extract_bib_numbers_def process_year_def match_doss_other)

section \<open>The 2017 edition\<close>

text \<open>
  C9.  A row of the 2017 loop has no key for the time or the rank of slots 0 to 5
  and none for the past achievements, so the data frame holds NaN in these columns;
  slot 6 carries the \<^verbatim>\<open>tps\<close> and \<^verbatim>\<open>class\<close> attributes of the ranking line.
\<close>

theorem legacy_slots:
  assumes "fromstring w (resp_content response) = Inr root"
    and "requests_get w url2017 = Inr response"
    and "legacy_loop w data = Inr data'"
    and "row \<in> set (drop (length data) data')"
  shows "(\<forall>k \<in> set [''Pt0 time'', ''Pt0 rank'', ''Pt1 time'', ''Pt1 rank'', ''Pt2 time'',
                      ''Pt2 rank'', ''Pt3 time'', ''Pt3 rank'', ''Pt4 time'', ''Pt4 rank'',
                      ''Pt5 time'', ''Pt5 rank'', ''Past Achievements''].
            map_of row k = None \<and> frame_cell row k = PNaN)
       \<and> (\<exists>runner \<in> set (findall2 root ''classement'' ''c'').
            row = legacy_record runner
            \<and> map_of row ''Pt6 time'' = Some (attrib_get runner ''tps'')
            \<and> map_of row ''Pt6 rank'' = Some (attrib_get runner ''class''))"
proof -
  from assms obtain runner where r: "runner \<in> set (findall2 root ''classement'' ''c'')"
    and row: "row = legacy_record runner"
    by (auto simp add: legacy_loop_def)
  have "\<forall>k \<in> set [''Pt0 time'', ''Pt0 rank'', ''Pt1 time'', ''Pt1 rank'', ''Pt2 time'',
                      ''Pt2 rank'', ''Pt3 time'', ''Pt3 rank'', ''Pt4 time'', ''Pt4 rank'',
                      ''Pt5 time'', ''Pt5 rank'', ''Past Achievements''].
            map_of row k = None \<and> frame_cell row k = PNaN"
    by (simp add: row legacy_record_def frame_cell_def)
  moreover have "map_of row ''Pt6 time'' = Some (attrib_get runner ''tps'')"
    "map_of row ''Pt6 rank'' = Some (attrib_get runner ''class'')"
    by (simp_all add: row legacy_record_def)
  ultimately show ?thesis using r row by blast
qed

theorem legacy_slots_witness:
  "legacy_loop (server 200 [] legacy_page) [] = Inr [legacy_record legacy_runner]
   \<and> map_of (legacy_record legacy_runner) ''Pt0 time'' = None
   \<and> frame_cell (legacy_record legacy_runner) ''Pt5 rank'' = PNaN
   \<and> map_of (legacy_record legacy_runner) ''Past Achievements'' = None
   \<and> map_of (legacy_record legacy_runner) ''Pt6 time'' = Some (PStr ''06:10:00'')
   \<and> map_of (legacy_record legacy_runner) ''Pt6 rank'' = Some (PStr ''3'')"
proof -
  let ?w = "server 200 [] legacy_page"
  let ?r = "\<lparr>status_code = 200, resp_text = [], resp_content = []\<rparr>"
  have l: "legacy_loop ?w [] = Inr [legacy_record legacy_runner]"
    by (simp add: legacy_loop_def server_def legacy_page_def query_defs legacy_runner_def)
  have "(\<forall>k \<in> set [''Pt0 time'', ''Pt0 rank'', ''Pt1 time'', ''Pt1 rank'', ''Pt2 time'',
                      ''Pt2 rank'', ''Pt3 time'', ''Pt3 rank'', ''Pt4 time'', ''Pt4 rank'',
                      ''Pt5 time'', ''Pt5 rank'', ''Past Achievements''].
            map_of (legacy_record legacy_runner) k = None
            \<and> frame_cell (legacy_record legacy_runner) k = PNaN)
       \<and> (\<exists>runner \<in> set (findall2 legacy_page ''classement'' ''c'').
            legacy_record legacy_runner = legacy_record runner
            \<and> map_of (legacy_record legacy_runner) ''Pt6 time'' = Some (attrib_get runner ''tps'')
            \<and> map_of (legacy_record legacy_runner) ''Pt6 rank''
                = Some (attrib_get runner ''class''))"
    using legacy_slots [of ?w ?r legacy_page "[]" "[legacy_record legacy_runner]"
            "legacy_record legacy_runner"] l
    by (simp add: server_def)
  moreover have "findall2 legacy_page ''classement'' ''c'' = [legacy_runner]"
    by (simp add: legacy_page_def query_defs legacy_runner_def)
  moreover have "attrib_get legacy_runner ''tps'' = PStr ''06:10:00''"
    "attrib_get legacy_runner ''class'' = PStr ''3''"
    by (simp_all add: attrib_get_def legacy_runner_def)
  ultimately show ?thesis using l by simp
qed

text \<open>
  C10.  In a row of the 2017 loop the rank of slot 6 and the global rank are the
  same value, both read from the \<^verbatim>\<open>class\<close> attribute, and the row has no
  \<^verbatim>\<open>Gender Rank\<close> key.
\<close>

theorem legacy_rank:
  assumes "fromstring w (resp_content response) = Inr root"
    and "requests_get w url2017 = Inr response"
    and "legacy_loop w data = Inr data'"
    and "row \<in> set (drop (length data) data')"
  shows "map_of row ''Pt6 rank'' = map_of row ''Global Rank''
       \<and> (\<exists>runner \<in> set (findall2 root ''classement'' ''c'').
            map_of row ''Global Rank'' = Some (attrib_get runner ''class''))
       \<and> ''Gender Rank'' \<notin> fst ` set row"
proof -
  from assms obtain runner where r: "runner \<in> set (findall2 root ''classement'' ''c'')"
    and row: "row = legacy_record runner"
    by (auto simp add: legacy_loop_def)
  have "map_of row ''Pt6 rank'' = map_of row ''Global Rank''"
    "map_of row ''Global Rank'' = Some (attrib_get runner ''class'')"
    "''Gender Rank'' \<notin> fst ` set row"
    by (simp_all add: row legacy_record_def)
  then show ?thesis using r by blast
qed

theorem legacy_rank_witness:
  "legacy_loop (server 200 [] legacy_page) [] = Inr [legacy_record legacy_runner]
   \<and> map_of (legacy_record legacy_runner) ''Pt6 rank'' = Some (PStr ''3'')
   \<and> map_of (legacy_record legacy_runner) ''Global Rank'' = Some (PStr ''3'')
   \<and> ''Gender Rank'' \<notin> fst ` set (legacy_record legacy_runner)"
proof -
  let ?w = "server 200 [] legacy_page"
  let ?r = "\<lparr>status_code = 200, resp_text = [], resp_content = []\<rparr>"
  have l: "legacy_loop ?w [] = Inr [legacy_record legacy_runner]"
    by (simp add: legacy_loop_def server_def legacy_page_def query_defs legacy_runner_def)
  have "map_of (legacy_record legacy_runner) ''Pt6 rank''
          = map_of (legacy_record legacy_runner) ''Global Rank''
       \<and> (\<exists>runner \<in> set (findall2 legacy_page ''classement'' ''c'').
            map_of (legacy_record legacy_runner) ''Global Rank''
              = Some (attrib_get runner ''class''))
       \<and> ''Gender Rank'' \<notin> fst ` set (legacy_record legacy_runner)"
    using legacy_rank [of ?w ?r legacy_page "[]" "[legacy_record legacy_runner]"
            "legacy_record legacy_runner"] l
    by (simp add: server_def)
  moreover have "findall2 legacy_page ''classement'' ''c'' = [legacy_runner]"
    by (simp add: legacy_page_def query_defs legacy_runner_def)
  moreover have "attrib_get legacy_runner ''class'' = PStr ''3''"
    by (simp add: attrib_get_def legacy_runner_def)
  ultimately show ?thesis using l by simp
qed

section \<open>The record of one runner\<close>

lemma align_step_slots:
  assumes "align_step cd splits k (i, ts, rs) = Inr (i', ts', rs')"
  shows "length ts' = length ts + length (relevant_ids cd [k])
       \<and> length rs' = length rs + length (relevant_ids cd [k])"
  using assms
  by (auto simp add: align_step_def relevant_ids_def dict_item_def bindE_def
           split: option.splits sum.splits if_splits)

lemma align_loop_slots:
  assumes "align_loop cd splits ids (i, ts, rs) = Inr (i', ts', rs')"
  shows "length ts' = length ts + length (relevant_ids cd ids)
       \<and> length rs' = length rs + length (relevant_ids cd ids)"
  using assms
proof (induction ids arbitrary: i ts rs)
  case Nil
  then show ?case by (simp add: relevant_ids_def)
next
  case (Cons k ids)
  from Cons.prems obtain j us vs where
    step: "align_step cd splits k (i, ts, rs) = Inr (j, us, vs)"
    and rest: "align_loop cd splits ids (j, us, vs) = Inr (i', ts', rs')"
    by (auto simp add: bindE_def split: sum.splits)
  have "relevant_ids cd (k # ids) = relevant_ids cd [k] @ relevant_ids cd ids"
    by (simp add: relevant_ids_def)
  then show ?case
    using align_step_slots [OF step] Cons.IH [OF rest] by simp
qed

lemma split_alignment_slots:
  assumes "split_alignment root = Inr (cptimes, cpranks)"
  shows "\<exists>cd ids. checkpoint_dict_of (findall2 root ''pts'' ''pt'') = Inr cd
           \<and> checkpoints_ids_of (findall2 root ''pts'' ''pt'') = Inr ids
           \<and> length cptimes = length (relevant_ids cd ids)
           \<and> length cpranks = length (relevant_ids cd ids)"
proof -
  from assms obtain cd ids i where
    cd: "checkpoint_dict_of (findall2 root ''pts'' ''pt'') = Inr cd"
    and ids: "checkpoints_ids_of (findall2 root ''pts'' ''pt'') = Inr ids"
    and loop: "align_loop cd (findall2 root ''pass'' ''e'') ids (0, [], [])
                 = Inr (i, cptimes, cpranks)"
    by (auto simp add: split_alignment_def Let_def bindE_def split: sum.splits prod.splits)
  from align_loop_slots [OF loop] cd ids show ?thesis by simp
qed

lemma checkpoint_slots_short:
  "length cptimes < 7 \<or> length cpranks < 7 \<Longrightarrow> checkpoint_slots cptimes cpranks = Inl IndexError"
  by (auto simp add: checkpoint_slots_def getitem_def)

lemma checkpoint_slots_full:
  "7 \<le> length cptimes \<Longrightarrow> 7 \<le> length cpranks \<Longrightarrow>
   checkpoint_slots cptimes cpranks =
     Inr [(''Pt0 time'', cptimes ! 0), (''Pt0 rank'', cpranks ! 0),
          (''Pt1 time'', cptimes ! 1), (''Pt1 rank'', cpranks ! 1),
          (''Pt2 time'', cptimes ! 2), (''Pt2 rank'', cpranks ! 2),
          (''Pt3 time'', cptimes ! 3), (''Pt3 rank'', cpranks ! 3),
          (''Pt4 time'', cptimes ! 4), (''Pt4 rank'', cpranks ! 4),
          (''Pt5 time'', cptimes ! 5), (''Pt5 rank'', cpranks ! 5),
          (''Pt6 time'', cptimes ! 6), (''Pt6 rank'', cpranks ! 6)]"
  by (auto simp add: checkpoint_slots_def getitem_def)

lemma runner_record_Inr:
  assumes "runner_record year bib root = Inr row"
  shows "\<exists>cptimes cpranks slots head achievements.
           split_alignment root = Inr (cptimes, cpranks)
         \<and> checkpoint_slots cptimes cpranks = Inr slots
         \<and> row = head @ slots @ [(''Past Achievements'', PList achievements)]
         \<and> map fst head = [''Year'', ''Bib Number'', ''Last Name'', ''First Name'', ''Sex'',
              ''Category'', ''Club'', ''Nationality'', ''Global Rank'', ''Category Rank'',
              ''Gender Rank'', ''UTMB Index'']"
  using assms
  by (auto simp add: runner_record_def bindE_def Let_def
           split: option.splits sum.splits prod.splits)

lemmas record_defs =
  runner_record_def achievement_def attrib_or_None_def attrib_get_def checkpoint_slots_def

text \<open>
  C3, as the spec has it, fails on a page with three checkpoints, each with its
  split: the walk yields three slots and the read \<^verbatim>\<open>cptimes[3]\<close> of the dict
  literal raises IndexError; no record with NaN in slots 3 to 6 is built.
\<close>

theorem three_checkpoints_no_record:
  "split_alignment page_three =
     Inr ([PStr ''01:00:00'', PStr ''02:00:00'', PStr ''03:00:00''],
          [PStr ''-'', PStr ''-'', PStr ''-''])
   \<and> runner_record 2022 ''1'' page_three = Inl IndexError"
proof -
  have walk: "split_alignment page_three =
     Inr ([PStr ''01:00:00'', PStr ''02:00:00'', PStr ''03:00:00''],
          [PStr ''-'', PStr ''-'', PStr ''-''])"
    by (simp add: sample_defs query_defs walk_defs)
  have "runner_record 2022 ''1'' page_three = Inl IndexError"
    unfolding runner_record_def walk
    by (simp add: sample_defs query_defs record_defs)
  with walk show ?thesis by simp
qed

text \<open>
  C3, as the code has it.  Every record the loop builds has the seven time and
  rank keys Pt0 to Pt6, holding the first seven slots of the walk, which has
  yielded at least seven.  When the walk yields fewer than seven slots (as many as
  the page has checkpoints that are not excluded), the reads of the dict literal
  raise IndexError and no record is built.
\<close>

theorem seven_slots_or_no_record:
  "(\<forall>row. runner_record year bib root = Inr row \<longrightarrow>
      (\<exists>cptimes cpranks. split_alignment root = Inr (cptimes, cpranks)
         \<and> 7 \<le> length cptimes \<and> 7 \<le> length cpranks
         \<and> map fst row =
             [''Year'', ''Bib Number'', ''Last Name'', ''First Name'', ''Sex'', ''Category'',
              ''Club'', ''Nationality'', ''Global Rank'', ''Category Rank'', ''Gender Rank'',
              ''UTMB Index'',
              ''Pt0 time'', ''Pt0 rank'', ''Pt1 time'', ''Pt1 rank'', ''Pt2 time'', ''Pt2 rank'',
              ''Pt3 time'', ''Pt3 rank'', ''Pt4 time'', ''Pt4 rank'', ''Pt5 time'', ''Pt5 rank'',
              ''Pt6 time'', ''Pt6 rank'', ''Past Achievements'']
         \<and> take 14 (drop 12 row) =
             [(''Pt0 time'', cptimes ! 0), (''Pt0 rank'', cpranks ! 0),
              (''Pt1 time'', cptimes ! 1), (''Pt1 rank'', cpranks ! 1),
              (''Pt2 time'', cptimes ! 2), (''Pt2 rank'', cpranks ! 2),
              (''Pt3 time'', cptimes ! 3), (''Pt3 rank'', cpranks ! 3),
              (''Pt4 time'', cptimes ! 4), (''Pt4 rank'', cpranks ! 4),
              (''Pt5 time'', cptimes ! 5), (''Pt5 rank'', cpranks ! 5),
              (''Pt6 time'', cptimes ! 6), (''Pt6 rank'', cpranks ! 6)]))
   \<and> (\<forall>cptimes cpranks.
        split_alignment root = Inr (cptimes, cpranks) \<and> length cptimes < 7 \<longrightarrow>
          (\<exists>cd ids. checkpoint_dict_of (findall2 root ''pts'' ''pt'') = Inr cd
             \<and> checkpoints_ids_of (findall2 root ''pts'' ''pt'') = Inr ids
             \<and> length cptimes = length (relevant_ids cd ids))
          \<and> checkpoint_slots cptimes cpranks = Inl IndexError
          \<and> (\<forall>row. runner_record year bib root \<noteq> Inr row))"
proof (intro conjI allI impI)
  fix row
  assume r: "runner_record year bib root = Inr row"
  from runner_record_Inr [OF r] obtain cptimes cpranks slots head achievements where
    al: "split_alignment root = Inr (cptimes, cpranks)"
    and sl: "checkpoint_slots cptimes cpranks = Inr slots"
    and row: "row = head @ slots @ [(''Past Achievements'', PList achievements)]"
    and head: "map fst head = [''Year'', ''Bib Number'', ''Last Name'', ''First Name'', ''Sex'',
              ''Category'', ''Club'', ''Nationality'', ''Global Rank'', ''Category Rank'',
              ''Gender Rank'', ''UTMB Index'']"
    by auto
  have len: "7 \<le> length cptimes \<and> 7 \<le> length cpranks"
  proof (rule ccontr)
    assume "\<not> (7 \<le> length cptimes \<and> 7 \<le> length cpranks)"
    then have "length cptimes < 7 \<or> length cpranks < 7" by auto
    from checkpoint_slots_short [OF this] sl show False by simp
  qed
  then have slots: "slots =
             [(''Pt0 time'', cptimes ! 0), (''Pt0 rank'', cpranks ! 0),
              (''Pt1 time'', cptimes ! 1), (''Pt1 rank'', cpranks ! 1),
              (''Pt2 time'', cptimes ! 2), (''Pt2 rank'', cpranks ! 2),
              (''Pt3 time'', cptimes ! 3), (''Pt3 rank'', cpranks ! 3),
              (''Pt4 time'', cptimes ! 4), (''Pt4 rank'', cpranks ! 4),
              (''Pt5 time'', cptimes ! 5), (''Pt5 rank'', cpranks ! 5),
              (''Pt6 time'', cptimes ! 6), (''Pt6 rank'', cpranks ! 6)]"
    using sl checkpoint_slots_full [of cptimes cpranks] by simp
  have lh: "length head = 12"
  proof -
    have "length (map fst head) = 12" by (simp only: head) simp
    then show ?thesis by simp
  qed
  have keys: "map fst row =
             [''Year'', ''Bib Number'', ''Last Name'', ''First Name'', ''Sex'', ''Category'',
              ''Club'', ''Nationality'', ''Global Rank'', ''Category Rank'', ''Gender Rank'',
              ''UTMB Index'',
              ''Pt0 time'', ''Pt0 rank'', ''Pt1 time'', ''Pt1 rank'', ''Pt2 time'', ''Pt2 rank'',
              ''Pt3 time'', ''Pt3 rank'', ''Pt4 time'', ''Pt4 rank'', ''Pt5 time'', ''Pt5 rank'',
              ''Pt6 time'', ''Pt6 rank'', ''Past Achievements'']"
    by (simp add: row head slots)
  have "drop 12 row = slots @ [(''Past Achievements'', PList achievements)]"
    using lh by (simp add: row)
  then have tk: "take 14 (drop 12 row) = slots"
    by (simp add: slots)
  show "\<exists>cptimes cpranks. split_alignment root = Inr (cptimes, cpranks)
         \<and> 7 \<le> length cptimes \<and> 7 \<le> length cpranks
         \<and> map fst row =
             [''Year'', ''Bib Number'', ''Last Name'', ''First Name'', ''Sex'', ''Category'',
              ''Club'', ''Nationality'', ''Global Rank'', ''Category Rank'', ''Gender Rank'',
              ''UTMB Index'',
              ''Pt0 time'', ''Pt0 rank'', ''Pt1 time'', ''Pt1 rank'', ''Pt2 time'', ''Pt2 rank'',
              ''Pt3 time'', ''Pt3 rank'', ''Pt4 time'', ''Pt4 rank'', ''Pt5 time'', ''Pt5 rank'',
              ''Pt6 time'', ''Pt6 rank'', ''Past Achievements'']
         \<and> take 14 (drop 12 row) =
             [(''Pt0 time'', cptimes ! 0), (''Pt0 rank'', cpranks ! 0),
              (''Pt1 time'', cptimes ! 1), (''Pt1 rank'', cpranks ! 1),
              (''Pt2 time'', cptimes ! 2), (''Pt2 rank'', cpranks ! 2),
              (''Pt3 time'', cptimes ! 3), (''Pt3 rank'', cpranks ! 3),
              (''Pt4 time'', cptimes ! 4), (''Pt4 rank'', cpranks ! 4),
              (''Pt5 time'', cptimes ! 5), (''Pt5 rank'', cpranks ! 5),
              (''Pt6 time'', cptimes ! 6), (''Pt6 rank'', cpranks ! 6)]"
  proof (rule exI [of _ cptimes], rule exI [of _ cpranks], intro conjI)
    show "split_alignment root = Inr (cptimes, cpranks)" by (rule al)
    show "7 \<le> length cptimes" using len by simp
    show "7 \<le> length cpranks" using len by simp
    show "map fst row =
             [''Year'', ''Bib Number'', ''Last Name'', ''First Name'', ''Sex'', ''Category'',
              ''Club'', ''Nationality'', ''Global Rank'', ''Category Rank'', ''Gender Rank'',
              ''UTMB Index'',
              ''Pt0 time'', ''Pt0 rank'', ''Pt1 time'', ''Pt1 rank'', ''Pt2 time'', ''Pt2 rank'',
              ''Pt3 time'', ''Pt3 rank'', ''Pt4 time'', ''Pt4 rank'', ''Pt5 time'', ''Pt5 rank'',
              ''Pt6 time'', ''Pt6 rank'', ''Past Achievements'']" by (rule keys)
    show "take 14 (drop 12 row) =
             [(''Pt0 time'', cptimes ! 0), (''Pt0 rank'', cpranks ! 0),
              (''Pt1 time'', cptimes ! 1), (''Pt1 rank'', cpranks ! 1),
              (''Pt2 time'', cptimes ! 2), (''Pt2 rank'', cpranks ! 2),
              (''Pt3 time'', cptimes ! 3), (''Pt3 rank'', cpranks ! 3),
              (''Pt4 time'', cptimes ! 4), (''Pt4 rank'', cpranks ! 4),
              (''Pt5 time'', cptimes ! 5), (''Pt5 rank'', cpranks ! 5),
              (''Pt6 time'', cptimes ! 6), (''Pt6 rank'', cpranks ! 6)]"
      using tk slots by simp
  qed
next
  fix cptimes cpranks
  assume a: "split_alignment root = Inr (cptimes, cpranks) \<and> length cptimes < 7"
  from split_alignment_slots [of root cptimes cpranks] a
  show "\<exists>cd ids. checkpoint_dict_of (findall2 root ''pts'' ''pt'') = Inr cd
             \<and> checkpoints_ids_of (findall2 root ''pts'' ''pt'') = Inr ids
             \<and> length cptimes = length (relevant_ids cd ids)"
    by blast
next
  fix cptimes cpranks
  assume a: "split_alignment root = Inr (cptimes, cpranks) \<and> length cptimes < 7"
  then show "checkpoint_slots cptimes cpranks = Inl IndexError"
    by (simp add: checkpoint_slots_short)
next
  fix cptimes cpranks row
  assume a: "split_alignment root = Inr (cptimes, cpranks) \<and> length cptimes < 7"
  show "runner_record year bib root \<noteq> Inr row"
  proof
    assume r: "runner_record year bib root = Inr row"
    from runner_record_Inr [OF r] obtain ts rs slots where
      "split_alignment root = Inr (ts, rs)" "checkpoint_slots ts rs = Inr slots"
      by auto
    with a have "checkpoint_slots cptimes cpranks = Inr slots" by simp
    moreover have "checkpoint_slots cptimes cpranks = Inl IndexError"
      using a by (simp add: checkpoint_slots_short)
    ultimately show False by simp
  qed
qed

theorem seven_slots_or_no_record_witness:
  "(\<exists>row cptimes cpranks. runner_record 2013 ''42'' page_seven = Inr row
      \<and> split_alignment page_seven = Inr (cptimes, cpranks)
      \<and> 7 \<le> length cptimes
      \<and> take 2 (drop 24 row) = [(''Pt6 time'', PStr ''07:00:00''), (''Pt6 rank'', PStr ''-'')])
   \<and> split_alignment page_three =
       Inr ([PStr ''01:00:00'', PStr ''02:00:00'', PStr ''03:00:00''],
            [PStr ''-'', PStr ''-'', PStr ''-''])
   \<and> (\<forall>row. runner_record 2013 ''42'' page_three \<noteq> Inr row)"
proof -
  let ?ts = "[PStr ''01:00:00'', PStr ''02:00:00'', PStr ''03:00:00'', PStr ''04:00:00'',
              PStr ''05:00:00'', PStr ''06:00:00'', PStr ''07:00:00'']"
  let ?rs = "[PStr ''-'', PStr ''-'', PStr ''-'', PStr ''-'', PStr ''-'', PStr ''-'', PStr ''-'']"
  let ?ts3 = "[PStr ''01:00:00'', PStr ''02:00:00'', PStr ''03:00:00'']"
  let ?rs3 = "[PStr ''-'', PStr ''-'', PStr ''-'']"
  have walk7: "split_alignment page_seven = Inr (?ts, ?rs)"
    by (simp add: sample_defs query_defs walk_defs)
  have "\<exists>row. runner_record 2013 ''42'' page_seven = Inr row"
    unfolding runner_record_def walk7
    by (simp add: sample_defs query_defs record_defs)
  then obtain row where rec7: "runner_record 2013 ''42'' page_seven = Inr row" ..
  from seven_slots_or_no_record [of 2013 "''42''" page_seven,
         THEN conjunct1, THEN spec, THEN mp, OF rec7]
  obtain cptimes cpranks where al: "split_alignment page_seven = Inr (cptimes, cpranks)"
    and len: "7 \<le> length cptimes"
    and slots: "take 14 (drop 12 row) =
             [(''Pt0 time'', cptimes ! 0), (''Pt0 rank'', cpranks ! 0),
              (''Pt1 time'', cptimes ! 1), (''Pt1 rank'', cpranks ! 1),
              (''Pt2 time'', cptimes ! 2), (''Pt2 rank'', cpranks ! 2),
              (''Pt3 time'', cptimes ! 3), (''Pt3 rank'', cpranks ! 3),
              (''Pt4 time'', cptimes ! 4), (''Pt4 rank'', cpranks ! 4),
              (''Pt5 time'', cptimes ! 5), (''Pt5 rank'', cpranks ! 5),
              (''Pt6 time'', cptimes ! 6), (''Pt6 rank'', cpranks ! 6)]"
    by auto
  from al walk7 have eq: "cptimes = ?ts" "cpranks = ?rs" by simp_all
  have "take 2 (drop 24 row) = drop 12 (take 14 (drop 12 row))"
    by (simp add: drop_take)
  also have "\<dots> = [(''Pt6 time'', PStr ''07:00:00''), (''Pt6 rank'', PStr ''-'')]"
    by (simp only: slots eq) simp
  finally have last: "take 2 (drop 24 row)
                        = [(''Pt6 time'', PStr ''07:00:00''), (''Pt6 rank'', PStr ''-'')]" .
  have first: "\<exists>row cptimes cpranks. runner_record 2013 ''42'' page_seven = Inr row
      \<and> split_alignment page_seven = Inr (cptimes, cpranks)
      \<and> 7 \<le> length cptimes
      \<and> take 2 (drop 24 row) = [(''Pt6 time'', PStr ''07:00:00''), (''Pt6 rank'', PStr ''-'')]"
    using rec7 al len last by (intro exI conjI)
  have walk3: "split_alignment page_three = Inr (?ts3, ?rs3)"
    by (simp add: sample_defs query_defs walk_defs)
  then have "split_alignment page_three = Inr (?ts3, ?rs3) \<and> length ?ts3 < 7"
    by simp
  from seven_slots_or_no_record [of 2013 "''42''" page_three,
         THEN conjunct2, THEN spec, THEN spec, THEN mp, OF this]
  have none: "\<forall>row. runner_record 2013 ''42'' page_three \<noteq> Inr row"
    by (elim conjE)
  from first walk3 none show ?thesis by (intro conjI)
qed

text \<open>What \<^verbatim>\<open>achievements\<close> holds when every past race has its five mandatory attributes.\<close>

lemma achievement_total:
  assumes "\<forall>k \<in> set [''year'', ''race'', ''pos'', ''tps'', ''dist'']. attrib race k \<noteq> None"
  shows "\<exists>d. achievement race = Inr (PDict d)
           \<and> (attrib race ''deniv'' = None \<longrightarrow> map_of d ''Elevation Gain'' = Some PNone)"
  using assms
  by (auto simp add: achievement_def attrib_item_def attrib_or_None_def dom_def
           split: option.splits)

lemma achievements_of_total:
  assumes "\<forall>race \<in> set races.
             \<forall>k \<in> set [''year'', ''race'', ''pos'', ''tps'', ''dist'']. attrib race k \<noteq> None"
  shows "\<exists>as. achievements_of races = Inr as \<and> length as = length races
           \<and> (\<forall>i < length races. attrib (races ! i) ''deniv'' = None \<longrightarrow>
                 (\<exists>d. as ! i = PDict d \<and> map_of d ''Elevation Gain'' = Some PNone))"
  using assms
proof (induction races)
  case Nil
  then show ?case by simp
next
  case (Cons race races)
  from Cons.prems have
    "\<forall>k \<in> set [''year'', ''race'', ''pos'', ''tps'', ''dist'']. attrib race k \<noteq> None"
    by simp
  from achievement_total [OF this] obtain d where
    a: "achievement race = Inr (PDict d)"
    and e: "attrib race ''deniv'' = None \<longrightarrow> map_of d ''Elevation Gain'' = Some PNone"
    by auto
  from Cons obtain as where
    as: "achievements_of races = Inr as" "length as = length races"
    and el: "\<forall>i < length races. attrib (races ! i) ''deniv'' = None \<longrightarrow>
                 (\<exists>d. as ! i = PDict d \<and> map_of d ''Elevation Gain'' = Some PNone)"
    by auto
  have "achievements_of (race # races) = Inr (PDict d # as)"
    by (simp add: a as)
  moreover have "length (PDict d # as) = length (race # races)"
    by (simp add: as)
  moreover have "\<forall>i < length (race # races). attrib ((race # races) ! i) ''deniv'' = None \<longrightarrow>
                 (\<exists>d'. (PDict d # as) ! i = PDict d' \<and> map_of d' ''Elevation Gain'' = Some PNone)"
  proof (intro allI impI)
    fix i
    assume i: "i < length (race # races)" and n: "attrib ((race # races) ! i) ''deniv'' = None"
    show "\<exists>d'. (PDict d # as) ! i = PDict d' \<and> map_of d' ''Elevation Gain'' = Some PNone"
    proof (cases i)
      case 0
      with e n show ?thesis by simp
    next
      case (Suc j)
      with i n el show ?thesis by simp
    qed
  qed
  ultimately show ?case by (intro exI conjI)
qed

text \<open>
  C8.  On a page whose mandatory parts are there (the \<^verbatim>\<open>identite\<close> element with
  \<^verbatim>\<open>nom\<close>, \<^verbatim>\<open>sx\<close>, \<^verbatim>\<open>cat\<close>, \<^verbatim>\<open>nat\<close>; the \<^verbatim>\<open>state\<close> element with \<^verbatim>\<open>clt\<close>; a walk that
  yields seven slots; \<^verbatim>\<open>year\<close>, \<^verbatim>\<open>race\<close>, \<^verbatim>\<open>pos\<close>, \<^verbatim>\<open>tps\<close>, \<^verbatim>\<open>dist\<close> on each past race)
  the record is built whether or not the optional attributes are present: an
  absent \<^verbatim>\<open>prenom\<close>, \<^verbatim>\<open>cltcat\<close> or \<^verbatim>\<open>cltsx\<close> gives None, an absent \<^verbatim>\<open>club\<close> the empty
  string, an absent \<^verbatim>\<open>deniv\<close> None in that race's entry.
\<close>

theorem optional_attributes:
  assumes idn: "find root ''identite'' = Some identite"
    and nom: "attrib identite ''nom'' = Some name"
    and sx: "attrib identite ''sx'' = Some sex"
    and cat: "attrib identite ''cat'' = Some category"
    and nat: "attrib identite ''nat'' = Some nationality"
    and st: "find root ''state'' = Some state"
    and clt: "attrib state ''clt'' = Some global_rank"
    and walk: "split_alignment root = Inr (cptimes, cpranks)"
    and seven: "7 \<le> length cptimes"
    and races: "\<forall>race \<in> set (findall2 root ''palm'' ''e'').
                  \<forall>k \<in> set [''year'', ''race'', ''pos'', ''tps'', ''dist'']. attrib race k \<noteq> None"
  shows "\<exists>row achievements. runner_record year bib root = Inr row
      \<and> (attrib identite ''prenom'' = None \<longrightarrow> map_of row ''First Name'' = Some PNone)
      \<and> (attrib identite ''club'' = None \<longrightarrow> map_of row ''Club'' = Some (PStr []))
      \<and> (attrib state ''cltcat'' = None \<longrightarrow> map_of row ''Category Rank'' = Some PNone)
      \<and> (attrib state ''cltsx'' = None \<longrightarrow> map_of row ''Gender Rank'' = Some PNone)
      \<and> map_of row ''Past Achievements'' = Some (PList achievements)
      \<and> length achievements = length (findall2 root ''palm'' ''e'')
      \<and> (\<forall>i < length (findall2 root ''palm'' ''e'').
            attrib (findall2 root ''palm'' ''e'' ! i) ''deniv'' = None \<longrightarrow>
            (\<exists>d. achievements ! i = PDict d \<and> map_of d ''Elevation Gain'' = Some PNone))"
proof -
  from achievements_of_total [OF races] obtain as where
    as: "achievements_of (findall2 root ''palm'' ''e'') = Inr as"
    and las: "length as = length (findall2 root ''palm'' ''e'')"
    and el: "\<forall>i < length (findall2 root ''palm'' ''e'').
            attrib (findall2 root ''palm'' ''e'' ! i) ''deniv'' = None \<longrightarrow>
            (\<exists>d. as ! i = PDict d \<and> map_of d ''Elevation Gain'' = Some PNone)"
    by auto
  from split_alignment_slots [OF walk] seven have seven': "7 \<le> length cpranks"
    by auto
  let ?index = "case find root ''palm'' of None \<Rightarrow> PNone
                | Some palm \<Rightarrow> attrib_get palm ''cote''"
  let ?row = "[(''Year'', PInt year),
             (''Bib Number'', PStr bib),
             (''Last Name'', PStr name),
             (''First Name'', attrib_or_None identite ''prenom''),
             (''Sex'', PStr sex),
             (''Category'', PStr category),
             (''Club'', PStr (attrib_get_default identite ''club'' [])),
             (''Nationality'', PStr nationality),
             (''Global Rank'', PStr global_rank),
             (''Category Rank'', attrib_or_None state ''cltcat''),
             (''Gender Rank'', attrib_or_None state ''cltsx''),
             (''UTMB Index'', ?index),
             (''Pt0 time'', cptimes ! 0), (''Pt0 rank'', cpranks ! 0),
             (''Pt1 time'', cptimes ! 1), (''Pt1 rank'', cpranks ! 1),
             (''Pt2 time'', cptimes ! 2), (''Pt2 rank'', cpranks ! 2),
             (''Pt3 time'', cptimes ! 3), (''Pt3 rank'', cpranks ! 3),
             (''Pt4 time'', cptimes ! 4), (''Pt4 rank'', cpranks ! 4),
             (''Pt5 time'', cptimes ! 5), (''Pt5 rank'', cpranks ! 5),
             (''Pt6 time'', cptimes ! 6), (''Pt6 rank'', cpranks ! 6),
             (''Past Achievements'', PList as)]"
  have rec: "runner_record year bib root = Inr ?row"
    by (simp add: runner_record_def idn nom sx cat nat st clt walk as
          checkpoint_slots_full [OF seven seven'])
  have f: "attrib identite ''prenom'' = None \<longrightarrow> map_of ?row ''First Name'' = Some PNone"
    by (simp add: attrib_or_None_def dom_def)
  have c: "attrib identite ''club'' = None \<longrightarrow> map_of ?row ''Club'' = Some (PStr [])"
    by (simp add: attrib_get_default_def)
  have cr: "attrib state ''cltcat'' = None \<longrightarrow> map_of ?row ''Category Rank'' = Some PNone"
    by (simp add: attrib_or_None_def dom_def)
  have gr: "attrib state ''cltsx'' = None \<longrightarrow> map_of ?row ''Gender Rank'' = Some PNone"
    by (simp add: attrib_or_None_def dom_def)
  have pa: "map_of ?row ''Past Achievements'' = Some (PList as)"
    by simp
  from rec f c cr gr pa las el show ?thesis
    by (intro exI conjI)
qed

theorem optional_attributes_witness:
  "\<exists>row d. runner_record 2013 ''42'' page_seven = Inr row
     \<and> map_of row ''First Name'' = Some PNone
     \<and> map_of row ''Club'' = Some (PStr [])
     \<and> map_of row ''Category Rank'' = Some PNone
     \<and> map_of row ''Gender Rank'' = Some PNone
     \<and> map_of row ''Past Achievements'' = Some (PList [PDict d])
     \<and> map_of d ''Elevation Gain'' = Some PNone"
proof -
  let ?identite = "Element ''identite''
        (map_of [(''nom'', ''DOE''), (''sx'', ''H''), (''cat'', ''SE''), (''nat'', ''FRA'')]) []"
  let ?state = "Element ''state'' (map_of [(''clt'', ''12'')]) []"
  let ?race = "Element ''e''
           (map_of [(''year'', ''2012''), (''race'', ''STL''), (''pos'', ''40''),
                    (''tps'', ''08:00:00''), (''dist'', ''70'')]) []"
  let ?ts = "[PStr ''01:00:00'', PStr ''02:00:00'', PStr ''03:00:00'', PStr ''04:00:00'',
              PStr ''05:00:00'', PStr ''06:00:00'', PStr ''07:00:00'']"
  let ?rs = "[PStr ''-'', PStr ''-'', PStr ''-'', PStr ''-'', PStr ''-'', PStr ''-'', PStr ''-'']"
  have idn: "find page_seven ''identite'' = Some ?identite"
    by (simp add: sample_defs query_defs)
  have st: "find page_seven ''state'' = Some ?state"
    by (simp add: sample_defs query_defs)
  have palm: "findall2 page_seven ''palm'' ''e'' = [?race]"
    by (simp add: sample_defs query_defs)
  have walk: "split_alignment page_seven = Inr (?ts, ?rs)"
    by (simp add: sample_defs query_defs walk_defs)
  have races: "\<forall>race \<in> set (findall2 page_seven ''palm'' ''e'').
                  \<forall>k \<in> set [''year'', ''race'', ''pos'', ''tps'', ''dist'']. attrib race k \<noteq> None"
    by (simp add: palm)
  from optional_attributes [OF idn _ _ _ _ st _ walk _ races,
         of "''DOE''" "''H''" "''SE''" "''FRA''" "''12''" 2013 "''42''"]
  obtain row achievements where
    rec: "runner_record 2013 ''42'' page_seven = Inr row"
    and f: "attrib ?identite ''prenom'' = None \<longrightarrow> map_of row ''First Name'' = Some PNone"
    and c: "attrib ?identite ''club'' = None \<longrightarrow> map_of row ''Club'' = Some (PStr [])"
    and cr: "attrib ?state ''cltcat'' = None \<longrightarrow> map_of row ''Category Rank'' = Some PNone"
    and gr: "attrib ?state ''cltsx'' = None \<longrightarrow> map_of row ''Gender Rank'' = Some PNone"
    and pa: "map_of row ''Past Achievements'' = Some (PList achievements)"
    and la: "length achievements = length (findall2 page_seven ''palm'' ''e'')"
    and el: "\<forall>i < length (findall2 page_seven ''palm'' ''e'').
            attrib (findall2 page_seven ''palm'' ''e'' ! i) ''deniv'' = None \<longrightarrow>
            (\<exists>d. achievements ! i = PDict d \<and> map_of d ''Elevation Gain'' = Some PNone)"
    by auto
  from el palm obtain d where d: "achievements ! 0 = PDict d"
    and eg: "map_of d ''Elevation Gain'' = Some PNone"
    by auto
  from la palm have "length achievements = 1" by simp
  then have "achievements = [achievements ! 0]"
    by (cases achievements) simp_all
  with d have ach: "achievements = [PDict d]" by simp
  have f': "map_of row ''First Name'' = Some PNone" using f by simp
  have c': "map_of row ''Club'' = Some (PStr [])" using c by simp
  have cr': "map_of row ''Category Rank'' = Some PNone" using cr by simp
  have gr': "map_of row ''Gender Rank'' = Some PNone" using gr by simp
  have pa': "map_of row ''Past Achievements'' = Some (PList [PDict d])"
    using pa ach by simp
  from rec f' c' cr' gr' pa' eg show ?thesis
    by (intro exI conjI)
qed

end
